theory Spec2Isabelle
  imports Main "HOL-Library.Sublist"
begin

section \<open>Strings, bytes and exceptions\<close>

text \<open>
  Python \<open>bytes\<close> and \<open>str\<close> are both modelled as lists of 8-bit characters; a \<open>str\<close> is
  thereby restricted to code points below 256. An exception is a value carrying its class
  name and the message that \<open>str(e)\<close> prints.
\<close>

type_synonym bytes = "char list"

datatype exn = Exn (exn_class: string) (exn_msg: string)

definition apos :: char where
  "apos = CHR 0x27"

definition dquote :: char where
  "dquote = CHR 0x22"

definition newline :: char where
  "newline = CHR 0x0A"

fun str_nat :: "nat \<Rightarrow> string" where
  "str_nat n = (if n < 10 then [char_of (48 + n)]
                else str_nat (n div 10) @ [char_of (48 + n mod 10)])"

declare str_nat.simps [simp del]

definition str_int :: "int \<Rightarrow> string" where
  "str_int i = (if i < 0 then CHR ''-'' # str_nat (nat (- i)) else str_nat (nat i))"

text \<open>\<open>s.find(sub)\<close>: the least index at which \<open>sub\<close> occurs in \<open>s\<close>.\<close>

fun str_find :: "string \<Rightarrow> string \<Rightarrow> nat option" where
  "str_find [] sub = (if sub = [] then Some 0 else None)"
| "str_find (c # s) sub =
     (if prefix sub (c # s) then Some 0 else map_option Suc (str_find s sub))"

text \<open>\<open>s.index(sub, start)\<close> for \<open>start \<le> len(s)\<close>; \<open>None\<close> stands for the ValueError.\<close>

definition str_index :: "string \<Rightarrow> string \<Rightarrow> nat \<Rightarrow> nat option" where
  "str_index s sub start =
     (if start \<le> length s then map_option (\<lambda>i. i + start) (str_find (drop start s) sub)
      else None)"

text \<open>\<open>sub in s\<close>.\<close>

definition str_contains :: "string \<Rightarrow> string \<Rightarrow> bool" where
  "str_contains sub s = (str_find s sub \<noteq> None)"

text \<open>\<open>s.lower()\<close> on code points below 256.\<close>

definition lower_char :: "char \<Rightarrow> char" where
  "lower_char c =
     (let n = (of_char c :: nat) in
      if (65 \<le> n \<and> n \<le> 90) \<or> (192 \<le> n \<and> n \<le> 222 \<and> n \<noteq> 215) then char_of (n + 32)
      else c)"

definition lower :: "string \<Rightarrow> string" where
  "lower s = map lower_char s"

section \<open>Rules\<close>

record Rule =
  mode :: string
  pattern :: string
  new_value :: string

section \<open>The parsed document\<close>

text \<open>
  An lxml element: namespace URI, local name, attributes, direct text, child elements and
  tail text. Comments and processing instructions are not part of the model. The code holds
  references to elements of one tree and assigns to \<open>el.text\<close> in place; here an element is
  referred to by its path of child indices from the root, and the assignment returns the
  updated tree. Assigning a text never changes the shape of the tree, so paths stay valid.
  The references lxml returns are to elements of the tree; on a path that leads nowhere
  the assignment of the model changes nothing.
\<close>

datatype element =
  Element (el_ns: "string option") (el_local: string) (el_attrib: "(string \<times> string) list")
          (el_text: "string option") (el_children: "element list") (el_tail: "string option")

type_synonym path = "nat list"

fun get_el :: "element \<Rightarrow> path \<Rightarrow> element option" where
  "get_el e [] = Some e"
| "get_el e (i # p) =
     (if i < length (el_children e) then get_el (el_children e ! i) p else None)"

fun set_text_at :: "path \<Rightarrow> string \<Rightarrow> element \<Rightarrow> element" where
  "set_text_at [] v (Element n l a t cs ta) = Element n l a (Some v) cs ta"
| "set_text_at (i # p) v (Element n l a t cs ta) =
     (if i < length cs then Element n l a t (cs[i := set_text_at p v (cs ! i)]) ta
      else Element n l a t cs ta)"

text \<open>The elements strictly below an element, in document order, each with its path.\<close>

fun descendants :: "element \<Rightarrow> (path \<times> element) list"
  and descendants_from :: "nat \<Rightarrow> element list \<Rightarrow> (path \<times> element) list" where
  "descendants (Element n l a t cs ta) = descendants_from 0 cs"
| "descendants_from i [] = []"
| "descendants_from i (c # cs) =
     ([i], c) # map (\<lambda>(p, e). (i # p, e)) (descendants c) @ descendants_from (Suc i) cs"

text \<open>What can be observed of the element at a path without looking at its children.\<close>

definition node_at ::
  "element \<Rightarrow> path \<Rightarrow> (string option \<times> string \<times> (string \<times> string) list \<times> string option \<times> nat \<times> string option) option"
  where
  "node_at r p =
     map_option (\<lambda>e. (el_ns e, el_local e, el_attrib e, el_text e, length (el_children e), el_tail e))
       (get_el r p)"

section \<open>The lxml interface\<close>

text \<open>
  The code calls three entry points of lxml: \<open>etree.fromstring\<close> with the recovering parser,
  \<open>root.xpath\<close> and \<open>etree.tostring\<close>. Parser and serializer are parameters of the model.
  With \<open>recover=True\<close> the parser may return \<open>None\<close> instead of a root element. XPath
  evaluation is a parameter too, except on the expressions treated below.

  An XPath result is a node set, a string, a number or a boolean. An item of a node set is
  an element, or something else (a text or attribute result); for the latter the model
  records what assigning to its \<open>text\<close> attribute does: raise, or succeed without touching
  the tree.
\<close>

datatype xitem = XElem path | XOther "exn option"

datatype xvalue = XNodeSet "xitem list" | XString string | XNumber | XBoolean bool

record lxml =
  fromstring :: "bytes \<Rightarrow> exn + element option"
  tostring :: "element \<Rightarrow> string \<Rightarrow> exn + bytes"
  xpath_syntax_error :: "string \<Rightarrow> exn"
  xpath_other :: "element \<Rightarrow> string \<Rightarrow> exn + xvalue"

text \<open>
  lxml encodes every string it is given (an XPath expression, a new text) with \<open>_utf8\<close>,
  which raises ValueError on control characters other than tab, newline and carriage
  return.
\<close>

definition xml_compatible :: "string \<Rightarrow> bool" where
  "xml_compatible s =
     list_all (\<lambda>c. 32 \<le> (of_char c :: nat) \<or> of_char c \<in> {9, 10, 13 :: nat}) s"

definition not_xml_compatible :: exn where
  "not_xml_compatible =
     Exn ''ValueError''
       ''All strings must be XML compatible: Unicode or ASCII, no NULL bytes or control characters''"

subsection \<open>XPath on the expressions of the tag mode\<close>

text \<open>
  In XPath 1.0 a quote character can only open or close a string literal, so an expression
  whose last literal is never closed is a syntax error whatever else it contains.
\<close>

datatype lex_state = Outside | InLiteral char

fun scan_literals :: "lex_state \<Rightarrow> string \<Rightarrow> lex_state" where
  "scan_literals st [] = st"
| "scan_literals Outside (c # cs) =
     (if c = apos \<or> c = dquote then scan_literals (InLiteral c) cs
      else scan_literals Outside cs)"
| "scan_literals (InLiteral q) (c # cs) =
     (if c = q then scan_literals Outside cs else scan_literals (InLiteral q) cs)"

definition unfinished_literal :: "string \<Rightarrow> bool" where
  "unfinished_literal expr = (scan_literals Outside expr \<noteq> Outside)"

text \<open>
  The fragment of XPath 1.0 that is evaluated here: \<open>.//*[\<close> \<^emph>\<open>pred\<close> \<open>]\<close>, where
  \<^emph>\<open>pred\<close> is a disjunction (\<open>or\<close>) of equalities between string literals and
  \<open>local-name()\<close>. \<open>.//*\<close> abbreviates \<open>./descendant-or-self::node()/child::*\<close>: the
  elements strictly below the context node, in document order.
\<close>

datatype operand = Lit string | LocalName

datatype token = TOperand operand | TEq | TOr

function tokenize :: "string \<Rightarrow> token list option" where
  "tokenize [] = Some []"
| "tokenize (c # cs) =
     (if c = CHR '' '' then tokenize cs
      else if c = apos \<or> c = dquote then
        (if c \<in> set cs
         then map_option ((#) (TOperand (Lit (takeWhile (\<lambda>x. x \<noteq> c) cs))))
                (tokenize (tl (dropWhile (\<lambda>x. x \<noteq> c) cs)))
         else None)
      else if c = CHR ''='' then map_option ((#) TEq) (tokenize cs)
      else if prefix ''local-name()'' (c # cs)
        then map_option ((#) (TOperand LocalName)) (tokenize (drop 11 cs))
      else if prefix ''or'' (c # cs) then map_option ((#) TOr) (tokenize (drop 1 cs))
      else None)"
  by pat_completeness auto
termination
proof (relation "measure length")
  fix c :: char and cs :: string
  have "length (dropWhile (\<lambda>x. x \<noteq> c) cs) \<le> length cs"
    by (rule length_dropWhile_le)
  then show "(tl (dropWhile (\<lambda>x. x \<noteq> c) cs), c # cs) \<in> measure length"
    by simp
qed simp_all

declare tokenize.simps [simp del]

fun parse_pred :: "token list \<Rightarrow> (operand \<times> operand) list option" where
  "parse_pred [TOperand a, TEq, TOperand b] = Some [(a, b)]"
| "parse_pred (TOperand a # TEq # TOperand b # TOr # rest) =
     map_option ((#) (a, b)) (parse_pred rest)"
| "parse_pred _ = None"

definition parse_descendant_query :: "string \<Rightarrow> (operand \<times> operand) list option" where
  "parse_descendant_query expr =
     (if prefix ''.//*['' expr \<and> suffix '']'' (drop 5 expr)
      then Option.bind (tokenize (butlast (drop 5 expr))) parse_pred
      else None)"

fun operand_value :: "element \<Rightarrow> operand \<Rightarrow> string" where
  "operand_value e (Lit s) = s"
| "operand_value e LocalName = el_local e"

definition eval_pred :: "(operand \<times> operand) list \<Rightarrow> element \<Rightarrow> bool" where
  "eval_pred q e = list_ex (\<lambda>(a, b). operand_value e a = operand_value e b) q"

text \<open>\<open>root.xpath(expr)\<close> on a root element.\<close>

definition xpath :: "lxml \<Rightarrow> element \<Rightarrow> string \<Rightarrow> exn + xvalue" where
  "xpath lib root expr =
     (if \<not> xml_compatible expr then Inl not_xml_compatible
      else if unfinished_literal expr then Inl (xpath_syntax_error lib expr)
      else (case parse_descendant_query expr of
              Some q \<Rightarrow>
                Inr (XNodeSet (map (\<lambda>d. XElem (fst d))
                                 (filter (\<lambda>d. eval_pred q (snd d)) (descendants root))))
            | None \<Rightarrow> xpath_other lib root expr))"

text \<open>
  \<open>el.text = value\<close>: on an element lxml checks the string and replaces the direct text;
  on another kind of result the outcome is the one the item carries.
\<close>

fun set_text :: "element \<Rightarrow> xitem \<Rightarrow> string \<Rightarrow> exn + element" where
  "set_text root (XElem p) v =
     (if xml_compatible v then Inr (set_text_at p v root) else Inl not_xml_compatible)"
| "set_text root (XOther (Some e)) v = Inl e"
| "set_text root (XOther None) v = Inr root"

text \<open>
  \<open>for el in els\<close>: a node set yields its items, a string its characters (plain strings,
  which have no \<open>text\<close> attribute to assign), a number or a boolean is not iterable.
\<close>

definition str_has_no_text :: exn where
  "str_has_no_text =
     Exn ''AttributeError'' ([apos] @ ''str'' @ [apos] @ '' object has no attribute '' @ [apos] @ ''text'' @ [apos])"

fun iterate :: "xvalue \<Rightarrow> exn + xitem list" where
  "iterate (XNodeSet items) = Inr items"
| "iterate (XString s) = Inr (map (\<lambda>c. XOther (Some str_has_no_text)) s)"
| "iterate XNumber =
     Inl (Exn ''TypeError'' ([apos] @ ''float'' @ [apos] @ '' object is not iterable''))"
| "iterate (XBoolean b) =
     Inl (Exn ''TypeError'' ([apos] @ ''bool'' @ [apos] @ '' object is not iterable''))"

fun is_element :: "xitem \<Rightarrow> bool" where
  "is_element (XElem p) = True"
| "is_element (XOther x) = False"

section \<open>The rule engine\<close>

definition elements_by_tag_localname :: "lxml \<Rightarrow> element \<Rightarrow> string \<Rightarrow> exn + xvalue" where
  "elements_by_tag_localname lib root localname =
     xpath lib root (''.//*[local-name()='' @ [apos] @ localname @ [apos] @ '']'')"

text \<open>
  The body of the \<open>try\<close> of one rule, up to the loop over the matches: the list the loop
  will run over, or the exception raised before it.
\<close>

definition select_elements :: "lxml \<Rightarrow> element \<Rightarrow> Rule \<Rightarrow> exn + xitem list" where
  "select_elements lib root rule =
     (if mode rule = ''tag'' then
        (case elements_by_tag_localname lib root (pattern rule) of
           Inl e \<Rightarrow> Inl e
         | Inr els \<Rightarrow> iterate els)
      else
        (case xpath lib root (pattern rule) of
           Inl e \<Rightarrow> Inl e
         | Inr els \<Rightarrow>
             (case iterate els of
                Inl e \<Rightarrow> Inl e
              | Inr items \<Rightarrow> Inr (filter is_element items))))"

text \<open>
  The loop \<open>for el in els: el.text = rule.new_value; applied += 1\<close>. An exception leaves
  the loop; the texts assigned and the count reached so far stay.
\<close>

fun set_texts :: "string \<Rightarrow> xitem list \<Rightarrow> element \<times> nat \<Rightarrow> (element \<times> nat) \<times> exn option" where
  "set_texts v [] (root, applied) = ((root, applied), None)"
| "set_texts v (el # els) (root, applied) =
     (case set_text root el v of
        Inl e \<Rightarrow> ((root, applied), Some e)
      | Inr root' \<Rightarrow> set_texts v els (root', applied + 1))"

definition none_has_no_xpath :: exn where
  "none_has_no_xpath =
     Exn ''AttributeError''
       ([apos] @ ''NoneType'' @ [apos] @ '' object has no attribute '' @ [apos] @ ''xpath'' @ [apos])"

text \<open>
  One rule inside its \<open>try\<close>: the document and the count after it, and the exception if
  one was raised. On a \<open>None\<close> root the attribute lookup \<open>root.xpath\<close> raises.
\<close>

definition try_rule :: "lxml \<Rightarrow> Rule \<Rightarrow> element option \<times> nat \<Rightarrow> (element option \<times> nat) \<times> exn option" where
  "try_rule lib rule st =
     (case fst st of
        None \<Rightarrow> (st, Some none_has_no_xpath)
      | Some root \<Rightarrow>
          (case select_elements lib root rule of
             Inl e \<Rightarrow> (st, Some e)
           | Inr els \<Rightarrow>
               (case set_texts (new_value rule) els (root, snd st) of
                  ((root', applied'), r) \<Rightarrow> ((Some root', applied'), r))))"

definition rule_error :: "Rule \<Rightarrow> exn \<Rightarrow> string" where
  "rule_error rule e =
     ''rule '' @ [apos] @ mode rule @ '':'' @ pattern rule @ [apos] @ '': '' @ exn_msg e"

text \<open>One iteration of \<open>for rule in rules\<close>, on (root, applied, errors).\<close>

definition apply_rule ::
  "lxml \<Rightarrow> Rule \<Rightarrow> element option \<times> nat \<times> string list \<Rightarrow> element option \<times> nat \<times> string list"
  where
  "apply_rule lib rule st =
     (case st of (root, applied, errors) \<Rightarrow>
        (case try_rule lib rule (root, applied) of
           ((root', applied'), None) \<Rightarrow> (root', applied', errors)
         | ((root', applied'), Some e) \<Rightarrow> (root', applied', errors @ [rule_error rule e])))"

fun run_rules ::
  "lxml \<Rightarrow> Rule list \<Rightarrow> element option \<times> nat \<times> string list \<Rightarrow> element option \<times> nat \<times> string list"
  where
  "run_rules lib [] st = st"
| "run_rules lib (rule # rules) st = run_rules lib rules (apply_rule lib rule st)"

subsection \<open>The encoding resolver\<close>

text \<open>\<open>data[:128].decode('ascii', errors='ignore')\<close> drops the bytes from 128 on.\<close>

definition decode_ascii_ignore :: "bytes \<Rightarrow> string" where
  "decode_ascii_ignore data = filter (\<lambda>c. (of_char c :: nat) < 128) data"

definition extract_declared_encoding :: "bytes \<Rightarrow> string option" where
  "extract_declared_encoding data =
     (let head = decode_ascii_ignore (take 128 data) in
      if str_contains ''<?xml'' head \<and> str_contains ''encoding'' head then
        (case str_index head ''encoding'' 0 of
           None \<Rightarrow> None
         | Some start \<Rightarrow>
             (case str_index head [dquote] start of
                None \<Rightarrow> None
              | Some q1 \<Rightarrow>
                  (case str_index head [dquote] (q1 + 1) of
                     None \<Rightarrow> None
                   | Some q2 \<Rightarrow> Some (take (q2 - (q1 + 1)) (drop (q1 + 1) head)))))
      else None)"

subsection \<open>apply_rules\<close>

definition none_not_serializable :: exn where
  "none_not_serializable =
     Exn ''TypeError''
       (''Type '' @ [apos] @ ''NoneType'' @ [apos] @ '' cannot be serialized.'')"

text \<open>\<open>etree.tostring(root, encoding=encoding, xml_declaration=True, ...)\<close>.\<close>

definition etree_tostring :: "lxml \<Rightarrow> element option \<Rightarrow> string \<Rightarrow> exn + bytes" where
  "etree_tostring lib root encoding =
     (case root of None \<Rightarrow> Inl none_not_serializable | Some r \<Rightarrow> tostring lib r encoding)"

definition apply_rules :: "lxml \<Rightarrow> bytes \<Rightarrow> Rule list \<Rightarrow> bytes \<times> nat \<times> string list" where
  "apply_rules lib xml_bytes rules =
     (case fromstring lib xml_bytes of
        Inl e \<Rightarrow> (xml_bytes, 0, [''parse error: '' @ exn_msg e])
      | Inr root0 \<Rightarrow>
          (case run_rules lib rules (root0, 0, []) of
             (root, applied, errors) \<Rightarrow>
               (let decl_encoding = extract_declared_encoding xml_bytes;
                    encoding = (case decl_encoding of
                                  None \<Rightarrow> ''utf-8''
                                | Some enc \<Rightarrow> if enc = [] then ''utf-8'' else enc)
                in case etree_tostring lib root encoding of
                     Inl e \<Rightarrow> (xml_bytes, applied, errors @ [''serialize error: '' @ exn_msg e])
                   | Inr new_bytes \<Rightarrow> (new_bytes, applied, errors))))"

section \<open>The archive pipeline\<close>

text \<open>
  A \<open>zipfile.ZipInfo\<close> with the fields the code reads or writes, and those a fresh
  descriptor is created with. The input archive is the list \<open>zin.infolist()\<close>, each
  descriptor with what \<open>zin.read(info)\<close> returns or raises. The output archive is the list
  of the entries written, in order. Writing to the output archive and to the log are
  modelled as appending to a list, which cannot fail.
\<close>

record ZipInfo =
  filename :: string
  date_time :: "nat \<times> nat \<times> nat \<times> nat \<times> nat \<times> nat"
  compress_type :: nat
  comment :: bytes
  extra :: bytes
  create_system :: nat
  internal_attr :: nat
  external_attr :: nat

definition ZIP_STORED :: nat where
  "ZIP_STORED = 0"

definition ZIP_DEFLATED :: nat where
  "ZIP_DEFLATED = 8"

type_synonym zip_in = "(ZipInfo \<times> (exn + bytes)) list"

type_synonym zip_out = "(ZipInfo \<times> bytes) list"

record ProcessStats =
  total_files :: int
  xml_changed :: int
  xml_unchanged :: int
  copied_other :: int
  errors :: int

type_synonym row = "string list"

text \<open>
  The state of a run: the statistics, the output archive, and the rows written to the log
  sink if one was supplied (\<open>log_writer=None\<close> otherwise).
\<close>

record run =
  stats :: ProcessStats
  zout :: zip_out
  log_writer :: "row list option"

text \<open>\<open>if log_writer: log_writer.writerow(r)\<close>.\<close>

definition writerow :: "row \<Rightarrow> run \<Rightarrow> run" where
  "writerow r st =
     (case log_writer st of
        None \<Rightarrow> st
      | Some rows \<Rightarrow> st\<lparr>log_writer := Some (rows @ [r])\<rparr>)"

fun writerows :: "row list \<Rightarrow> run \<Rightarrow> run" where
  "writerows [] st = st"
| "writerows (r # rs) st = writerows rs (writerow r st)"

text \<open>
  \<open>zipfile.ZipInfo(filename=..., date_time=...)\<close> creates a descriptor with default
  values in the other fields (the default of \<open>create_system\<close> depends on the platform; the
  code overwrites it).
\<close>

definition new_ZipInfo :: "string \<Rightarrow> nat \<times> nat \<times> nat \<times> nat \<times> nat \<times> nat \<Rightarrow> ZipInfo" where
  "new_ZipInfo name dt =
     \<lparr>filename = name, date_time = dt, compress_type = ZIP_STORED, comment = [], extra = [],
      create_system = 0, internal_attr = 0, external_attr = 0\<rparr>"

definition clone_info :: "ZipInfo \<Rightarrow> ZipInfo" where
  "clone_info src_info =
     (new_ZipInfo (filename src_info) (date_time src_info))
       \<lparr>compress_type := ZIP_DEFLATED,
        create_system := create_system src_info,
        external_attr := external_attr src_info\<rparr>"

definition write_clone_info :: "ZipInfo \<Rightarrow> bytes \<Rightarrow> run \<Rightarrow> run" where
  "write_clone_info src_info data st = st\<lparr>zout := zout st @ [(clone_info src_info, data)]\<rparr>"

definition bump_total :: "run \<Rightarrow> run" where
  "bump_total st = st\<lparr>stats := (stats st)\<lparr>total_files := total_files (stats st) + 1\<rparr>\<rparr>"

definition bump_changed :: "run \<Rightarrow> run" where
  "bump_changed st = st\<lparr>stats := (stats st)\<lparr>xml_changed := xml_changed (stats st) + 1\<rparr>\<rparr>"

definition bump_unchanged :: "run \<Rightarrow> run" where
  "bump_unchanged st = st\<lparr>stats := (stats st)\<lparr>xml_unchanged := xml_unchanged (stats st) + 1\<rparr>\<rparr>"

definition bump_copied :: "run \<Rightarrow> run" where
  "bump_copied st = st\<lparr>stats := (stats st)\<lparr>copied_other := copied_other (stats st) + 1\<rparr>\<rparr>"

definition add_errors :: "int \<Rightarrow> run \<Rightarrow> run" where
  "add_errors k st = st\<lparr>stats := (stats st)\<lparr>errors := errors (stats st) + k\<rparr>\<rparr>"

definition applied_detail :: "nat \<Rightarrow> string" where
  "applied_detail applied = ''applied='' @ str_nat applied"

text \<open>The handler \<open>except Exception as e\<close> of one entry.\<close>

definition fatal_entry :: "string \<Rightarrow> exn \<Rightarrow> run \<Rightarrow> run" where
  "fatal_entry arcname e st = writerow [arcname, ''fatal'', exn_msg e] (add_errors 1 st)"

text \<open>The branch of an entry whose name ends in \<open>.xml\<close>, after its bytes were read.\<close>

definition process_xml :: "lxml \<Rightarrow> Rule list \<Rightarrow> ZipInfo \<Rightarrow> bytes \<Rightarrow> run \<Rightarrow> run" where
  "process_xml lib rules info data st =
     (case apply_rules lib data rules of
        (new_bytes, applied, errs) \<Rightarrow>
          (let arcname = filename info;
               st1 = (if errs \<noteq> [] \<and> log_writer st \<noteq> None
                      then add_errors (int (length errs))
                             (writerows (map (\<lambda>err. [arcname, ''error'', err]) errs) st)
                      else st)
           in if 0 < applied \<and> new_bytes \<noteq> data
              then writerow [arcname, ''changed'', applied_detail applied]
                     (write_clone_info info new_bytes (bump_changed st1))
              else writerow [arcname, ''unchanged'', applied_detail applied]
                     (write_clone_info info data (bump_unchanged st1))))"

text \<open>One iteration of \<open>for info in zin.infolist()\<close>.\<close>

definition process_entry :: "lxml \<Rightarrow> Rule list \<Rightarrow> ZipInfo \<times> (exn + bytes) \<Rightarrow> run \<Rightarrow> run" where
  "process_entry lib rules entry st =
     (case entry of (info, rd) \<Rightarrow>
        (let st0 = bump_total st; arcname = filename info
         in case rd of
              Inl e \<Rightarrow> fatal_entry arcname e st0
            | Inr data \<Rightarrow>
                if suffix ''.xml'' (lower arcname) then process_xml lib rules info data st0
                else write_clone_info info data (bump_copied st0)))"

fun process_entries :: "lxml \<Rightarrow> Rule list \<Rightarrow> zip_in \<Rightarrow> run \<Rightarrow> run" where
  "process_entries lib rules [] st = st"
| "process_entries lib rules (entry # entries) st =
     process_entries lib rules entries (process_entry lib rules entry st)"

text \<open>\<open>json.dumps(asdict(stats), ensure_ascii=False)\<close>.\<close>

definition json_field :: "string \<Rightarrow> int \<Rightarrow> string" where
  "json_field name v = [dquote] @ name @ [dquote] @ '': '' @ str_int v"

definition stats_json :: "ProcessStats \<Rightarrow> string" where
  "stats_json s =
     ''{'' @ json_field ''total_files'' (total_files s) @ '', ''
       @ json_field ''xml_changed'' (xml_changed s) @ '', ''
       @ json_field ''xml_unchanged'' (xml_unchanged s) @ '', ''
       @ json_field ''copied_other'' (copied_other s) @ '', ''
       @ json_field ''errors'' (errors s) @ ''}''"

definition empty_stats :: ProcessStats where
  "empty_stats =
     \<lparr>total_files = 0, xml_changed = 0, xml_unchanged = 0, copied_other = 0, errors = 0\<rparr>"

text \<open>
  \<open>process_zip\<close>: the input archive stands for \<open>in_zip_path\<close> and the returned output
  archive for \<open>out_zip_path\<close>; \<open>elapsed\<close> is the text \<open>f"{dur:.2f}s"\<close> computed from the
  clock. The function returns \<open>stats\<close>; the model returns with it the output archive and
  the rows written to the log.
\<close>

definition process_zip :: "lxml \<Rightarrow> zip_in \<Rightarrow> Rule list \<Rightarrow> row list option \<Rightarrow> string \<Rightarrow> run" where
  "process_zip lib zin rules sink elapsed =
     (let st = process_entries lib rules zin \<lparr>stats = empty_stats, zout = [], log_writer = sink\<rparr>
      in writerow [''__SUMMARY__'', stats_json (stats st), elapsed] st)"

section \<open>A library instance for concrete documents\<close>

text \<open>
  To evaluate the model on concrete documents, the parser is given by a finite table of
  documents with their trees, and the serializer writes a tree of elements without
  namespaces in lxml's output format for an ASCII-compatible encoding: the XML declaration
  with the requested encoding name, a newline, and the element. No expression outside the
  fragment above is evaluated with this instance.
\<close>

fun escape_text :: "string \<Rightarrow> string" where
  "escape_text [] = []"
| "escape_text (c # cs) =
     (if c = CHR ''&'' then ''&amp;'' else if c = CHR ''<'' then ''&lt;''
      else if c = CHR ''>'' then ''&gt;'' else [c]) @ escape_text cs"

fun escape_attr :: "string \<Rightarrow> string" where
  "escape_attr [] = []"
| "escape_attr (c # cs) =
     (if c = CHR ''&'' then ''&amp;'' else if c = CHR ''<'' then ''&lt;''
      else if c = CHR ''>'' then ''&gt;'' else if c = dquote then ''&quot;''
      else [c]) @ escape_attr cs"

definition write_attr :: "string \<times> string \<Rightarrow> string" where
  "write_attr kv = '' '' @ fst kv @ ''='' @ [dquote] @ escape_attr (snd kv) @ [dquote]"

definition opt_text :: "string option \<Rightarrow> string" where
  "opt_text t = (case t of None \<Rightarrow> [] | Some s \<Rightarrow> escape_text s)"

fun write_element :: "element \<Rightarrow> string" where
  "write_element (Element n l a t cs ta) =
     (if t = None \<and> cs = [] then ''<'' @ l @ concat (map write_attr a) @ ''/>''
      else ''<'' @ l @ concat (map write_attr a) @ ''>'' @ opt_text t
             @ concat (map write_element cs) @ ''</'' @ l @ ''>'')
     @ opt_text ta"

definition xml_declaration :: "string \<Rightarrow> string" where
  "xml_declaration encoding =
     ''<?xml version='' @ [apos] @ ''1.0'' @ [apos] @ '' encoding='' @ [apos] @ encoding @ [apos]
       @ ''?>'' @ [newline]"

definition table_lxml :: "(bytes \<times> element) list \<Rightarrow> lxml" where
  "table_lxml docs =
     \<lparr>fromstring = (\<lambda>data. case map_of docs data of
                             None \<Rightarrow> Inl (Exn ''XMLSyntaxError'' ''Document is empty'')
                           | Some root \<Rightarrow> Inr (Some root)),
      tostring = (\<lambda>root encoding. Inr (xml_declaration encoding @ write_element root)),
      xpath_syntax_error = (\<lambda>expr. Exn ''XPathEvalError'' ''Invalid predicate''),
      xpath_other = (\<lambda>root expr. Inl (Exn ''XPathEvalError'' ''Invalid expression''))\<rparr>"

section \<open>Definitions used in the statements\<close>

text \<open>The number of entries whose read raises: the entries that end in a fatal failure.\<close>

definition fatal_count :: "zip_in \<Rightarrow> nat" where
  "fatal_count zin = length (filter (\<lambda>entry. isl (snd entry)) zin)"


text \<open>A document, its tree, an entry and a rule for the concrete instances below.\<close>

definition demo_doc :: bytes where
  "demo_doc = ''<r><b>old</b></r>''"

definition demo_tree :: element where
  "demo_tree = Element None ''r'' [] None [Element None ''b'' [] (Some ''old'') [] None] None"

definition demo_lxml :: lxml where
  "demo_lxml = table_lxml [(demo_doc, demo_tree)]"

definition demo_info :: ZipInfo where
  "demo_info = (new_ZipInfo ''a.xml'' (2024, 5, 17, 10, 30, 0))\<lparr>external_attr := 33188\<rparr>"

definition demo_rule :: Rule where
  "demo_rule = \<lparr>mode = ''tag'', pattern = ''b'', new_value = ''NEW''\<rparr>"

definition demo_run :: run where
  "demo_run = \<lparr>stats = empty_stats, zout = [], log_writer = Some []\<rparr>"

definition quote_rule :: Rule where
  "quote_rule = \<lparr>mode = ''tag'', pattern = ''x'' @ [apos], new_value = ''NEW''\<rparr>"

definition bad_xml_info :: ZipInfo where
  "bad_xml_info = new_ZipInfo ''bad.xml'' (2024, 5, 17, 10, 30, 0)"

text \<open>The expression the tag mode builds for a pattern.\<close>

definition tag_expr :: "string \<Rightarrow> string" where
  "tag_expr localname = ''.//*[local-name()='' @ [apos] @ localname @ [apos] @ '']''"

text \<open>The observation of an element after its text was replaced.\<close>

definition with_text :: "string \<Rightarrow>
    (string option \<times> string \<times> (string \<times> string) list \<times> string option \<times> nat \<times> string option) \<Rightarrow>
    (string option \<times> string \<times> (string \<times> string) list \<times> string option \<times> nat \<times> string option)" where
  "with_text v x = (case x of (n, l, a, t, k, ta) \<Rightarrow> (n, l, a, Some v, k, ta))"

text \<open>A document whose root element is named \<open>b\<close>.\<close>

definition root_b :: element where
  "root_b = Element None ''b'' [] (Some ''old'') [] None"

definition root_b_lxml :: lxml where
  "root_b_lxml = table_lxml [(''<b>old</b>'', root_b)]"

text \<open>A tag pattern that closes the literal of the expression and opens another one.\<close>

definition inject_rule :: Rule where
  "inject_rule =
     \<lparr>mode = ''tag'',
      pattern = ''x'' @ [apos] @ '' or '' @ [apos] @ ''a'' @ [apos] @ ''='' @ [apos] @ ''a'',
      new_value = ''NEW''\<rparr>"






text \<open>A parser that recovers the root element from the bytes \<open><root><\<close>.\<close>

definition recovering_lxml :: lxml where
  "recovering_lxml = table_lxml [(''<root><'', Element None ''root'' [] None [] None)]"

section \<open>The state of a run under the operations of the pipeline\<close>

lemma writerow_fields [simp]:
  "stats (writerow r st) = stats st"
  "zout (writerow r st) = zout st"
  "log_writer (writerow r st) = map_option (\<lambda>rows. rows @ [r]) (log_writer st)"
  by (simp_all add: writerow_def split: option.splits)

lemma writerows_fields [simp]:
  "stats (writerows rs st) = stats st"
  "zout (writerows rs st) = zout st"
  "log_writer (writerows rs st) = map_option (\<lambda>rows. rows @ rs) (log_writer st)"
  by (induction rs arbitrary: st; simp add: option.map_comp comp_def option.map_ident)+

lemma write_clone_info_fields [simp]:
  "stats (write_clone_info info data st) = stats st"
  "zout (write_clone_info info data st) = zout st @ [(clone_info info, data)]"
  "log_writer (write_clone_info info data st) = log_writer st"
  by (simp_all add: write_clone_info_def)

lemma bump_fields [simp]:
  "zout (bump_total st) = zout st" "log_writer (bump_total st) = log_writer st"
  "zout (bump_changed st) = zout st" "log_writer (bump_changed st) = log_writer st"
  "zout (bump_unchanged st) = zout st" "log_writer (bump_unchanged st) = log_writer st"
  "zout (bump_copied st) = zout st" "log_writer (bump_copied st) = log_writer st"
  "zout (add_errors k st) = zout st" "log_writer (add_errors k st) = log_writer st"
  by (simp_all add: bump_total_def bump_changed_def bump_unchanged_def bump_copied_def
      add_errors_def)

lemma bump_stats [simp]:
  "stats (bump_total st) = (stats st)\<lparr>total_files := total_files (stats st) + 1\<rparr>"
  "stats (bump_changed st) = (stats st)\<lparr>xml_changed := xml_changed (stats st) + 1\<rparr>"
  "stats (bump_unchanged st) = (stats st)\<lparr>xml_unchanged := xml_unchanged (stats st) + 1\<rparr>"
  "stats (bump_copied st) = (stats st)\<lparr>copied_other := copied_other (stats st) + 1\<rparr>"
  "stats (add_errors k st) = (stats st)\<lparr>errors := errors (stats st) + k\<rparr>"
  by (simp_all add: bump_total_def bump_changed_def bump_unchanged_def bump_copied_def
      add_errors_def)

section \<open>Metadata of the output entries\<close>






section \<open>The counters of a run\<close>





section \<open>Entries that raise\<close>



section \<open>Classification of XML entries\<close>

text \<open>
  Claim C5. An entry whose name ends in \<open>.xml\<close> (case-insensitively) and whose bytes were
  read is counted as changed, and the bytes returned by \<open>apply_rules\<close> are written, exactly
  when the applied count is positive and those bytes differ from the entry's bytes;
  otherwise it is counted as unchanged and the entry's original bytes are written. In both
  cases the log sink, if there is one, receives the status row with \<open>applied=\<close> and the
  count.
\<close>

theorem xml_entry_classification:
  assumes "suffix ''.xml'' (lower (filename info))"
    and "apply_rules lib data rules = (new_bytes, applied, errs)"
  shows "(let st' = process_entry lib rules (info, Inr data) st;
              changed = (0 < applied \<and> new_bytes \<noteq> data)
          in xml_changed (stats st') = xml_changed (stats st) + (if changed then 1 else 0)
             \<and> xml_unchanged (stats st') = xml_unchanged (stats st) + (if changed then 0 else 1)
             \<and> copied_other (stats st') = copied_other (stats st)
             \<and> total_files (stats st') = total_files (stats st) + 1
             \<and> zout st' = zout st @ [(clone_info info, if changed then new_bytes else data)]
             \<and> log_writer st'
                 = map_option
                     (\<lambda>rows. rows @ map (\<lambda>err. [filename info, ''error'', err]) errs
                        @ [[filename info, if changed then ''changed'' else ''unchanged'',
                            ''applied='' @ str_nat applied]])
                     (log_writer st))"
  using assms
  by (cases "log_writer st")
     (auto simp: process_entry_def process_xml_def Let_def applied_detail_def)

lemma demo_info_is_xml: "suffix ''.xml'' (lower (filename demo_info))"
  by (simp add: demo_info_def new_ZipInfo_def lower_def lower_char_def Let_def suffix_Cons)

lemma demo_apply_rules:
  "apply_rules demo_lxml demo_doc [demo_rule]
     = (xml_declaration ''utf-8'' @ ''<r><b>NEW</b></r>'', 1, [])"
  by code_simp

theorem xml_entry_classification_witness:
  "suffix ''.xml'' (lower (filename demo_info))
   \<and> apply_rules demo_lxml demo_doc [demo_rule]
       = (xml_declaration ''utf-8'' @ ''<r><b>NEW</b></r>'', 1, [])
   \<and> zout (process_entry demo_lxml [demo_rule] (demo_info, Inr demo_doc) demo_run)
       = [(clone_info demo_info, xml_declaration ''utf-8'' @ ''<r><b>NEW</b></r>'')]
   \<and> xml_changed (stats (process_entry demo_lxml [demo_rule] (demo_info, Inr demo_doc) demo_run)) = 1"
proof -
  have h1: "suffix ''.xml'' (lower (filename demo_info))"
    by (rule demo_info_is_xml)
  have h2: "xml_declaration ''utf-8'' @ ''<r><b>NEW</b></r>'' \<noteq> demo_doc"
    by code_simp
  show ?thesis
    using xml_entry_classification [OF h1 demo_apply_rules, of demo_run] h1 h2 demo_apply_rules
    by (simp add: Let_def demo_run_def empty_stats_def)
qed

section \<open>Rule errors and the error counter\<close>

lemma bad_xml_info_is_xml: "suffix ''.xml'' (lower (filename bad_xml_info))"
  by (simp add: bad_xml_info_def new_ZipInfo_def lower_def lower_char_def Let_def suffix_Cons)

lemma single_xml_entry_errors:
  assumes "suffix ''.xml'' (lower (filename info))"
    and "apply_rules lib data rules = (new_bytes, applied, errs)"
  shows "errors (stats (process_zip lib [(info, Inr data)] rules sink elapsed))
           = (if sink = None then 0 else int (length errs))"
  using assms
  by (simp add: process_zip_def process_entry_def process_xml_def Let_def empty_stats_def)

lemma quote_rule_apply:
  "apply_rules demo_lxml demo_doc [quote_rule]
     = (xml_declaration ''utf-8'' @ demo_doc, 0,
        [''rule '' @ [apos] @ ''tag:x'' @ [apos, apos] @ '': Invalid predicate''])"
  by code_simp

text \<open>
  Claim C1 says that the error counter grows by the number of errors \<open>apply_rules\<close>
  returns, also when no log sink is supplied. In the code \<open>stats.errors += len(errors)\<close>
  stands under \<open>if errors and log_writer\<close>: for an archive with the one entry \<open>a.xml\<close> and
  a tag rule with the pattern \<open>x'\<close>, \<open>apply_rules\<close> returns one error; without a log sink
  the run ends with \<open>errors = 0\<close>, with a log sink it ends with \<open>errors = 1\<close>.
\<close>

theorem no_sink_rule_errors_not_counted:
  "length (snd (snd (apply_rules demo_lxml demo_doc [quote_rule]))) = 1
   \<and> errors (stats (process_zip demo_lxml [(demo_info, Inr demo_doc)] [quote_rule] None
                      ''0.00s'')) = 0
   \<and> errors (stats (process_zip demo_lxml [(demo_info, Inr demo_doc)] [quote_rule] (Some [])
                      ''0.00s'')) = 1"
  using single_xml_entry_errors [OF demo_info_is_xml quote_rule_apply, of None "''0.00s''"]
    single_xml_entry_errors [OF demo_info_is_xml quote_rule_apply, of "Some []" "''0.00s''"]
  by (simp add: quote_rule_apply)

text \<open>
  In general: without a log sink the error counter of a run is the number of entries whose
  read raised, whatever errors \<open>apply_rules\<close> returned.
\<close>

lemma process_entry_errors_no_sink:
  assumes "log_writer st = None"
  shows "log_writer (process_entry lib rules entry st) = None
     \<and> errors (stats (process_entry lib rules entry st))
         = errors (stats st) + (if isl (snd entry) then 1 else 0)"
proof (cases entry)
  case (Pair info rd)
  show ?thesis
  proof (cases rd)
    case (Inl e)
    with Pair assms show ?thesis
      by (simp add: process_entry_def fatal_entry_def)
  next
    case (Inr data)
    with Pair assms show ?thesis
      by (cases "apply_rules lib data rules")
         (simp add: process_entry_def process_xml_def Let_def)
  qed
qed

lemma process_entries_errors_no_sink:
  assumes "log_writer st = None"
  shows "errors (stats (process_entries lib rules zin st))
           = errors (stats st) + int (fatal_count zin)"
  using assms
proof (induction zin arbitrary: st)
  case Nil
  then show ?case by (simp add: fatal_count_def)
next
  case (Cons entry zin)
  from process_entry_errors_no_sink [OF Cons.prems, of lib rules entry]
  have "log_writer (process_entry lib rules entry st) = None"
    and e: "errors (stats (process_entry lib rules entry st))
         = errors (stats st) + (if isl (snd entry) then 1 else 0)"
    by simp_all
  from Cons.IH [OF this(1)] e show ?case
    by (simp add: fatal_count_def)
qed

lemma no_sink_errors_are_fatal_only:
  "errors (stats (process_zip lib zin rules None elapsed)) = int (fatal_count zin)"
  using process_entries_errors_no_sink
    [of "\<lparr>stats = empty_stats, zout = [], log_writer = None\<rparr>" lib rules zin]
  by (simp add: process_zip_def Let_def empty_stats_def)

section \<open>Documents the parser rejects\<close>







text \<open>
  When the recovering parser returns a root element for the bytes \<open><root><\<close> instead of
  raising, \<open>apply_rules\<close> reports no error and the run ends with \<open>errors = 0\<close> also with
  a log sink.
\<close>

lemma recovering_parser_apply:
  "apply_rules recovering_lxml ''<root><'' [demo_rule]
     = (xml_declaration ''utf-8'' @ ''<root/>'', 0, [])"
  by code_simp

lemma recovering_parser_reports_nothing:
  "errors (stats (process_zip recovering_lxml [(bad_xml_info, Inr ''<root><'')] [demo_rule]
                    (Some []) ''0.00s'')) = 0"
  using single_xml_entry_errors [OF bad_xml_info_is_xml recovering_parser_apply,
      of "Some []" "''0.00s''"]
  by simp

section \<open>Rules that raise\<close>







text \<open>
  An assignment that raises at the second match leaves the text assigned to the first, and
  the loop of \<open>apply_rules\<close> hands its count and its errors on to the result.
\<close>

lemma set_texts_keeps_assigned_texts:
  "set_texts ''NEW'' [XElem [0], XOther (Some e)] (demo_tree, 0)
     = ((Element None ''r'' [] None [Element None ''b'' [] (Some ''NEW'') [] None] None, 1), Some e)"
  by (simp add: demo_tree_def xml_compatible_def)

lemma apply_rules_returns_loop_result:
  assumes "fromstring lib data = Inr root0"
    and "run_rules lib rules (root0, 0, []) = (root, applied, errs)"
  shows "fst (snd (apply_rules lib data rules)) = applied
     \<and> (snd (snd (apply_rules lib data rules)) = errs
        \<or> (\<exists>e. snd (snd (apply_rules lib data rules))
                  = errs @ [''serialize error: '' @ exn_msg e]))"
  using assms by (auto simp: apply_rules_def Let_def split: sum.splits)

section \<open>The tag mode\<close>

subsection \<open>The expression of a pattern without apostrophe\<close>

lemma elements_by_tag_localname_expr:
  "elements_by_tag_localname lib root localname = xpath lib root (tag_expr localname)"
  by (simp add: elements_by_tag_localname_def tag_expr_def)

lemma scan_literals_append:
  "scan_literals st (xs @ ys) = scan_literals (scan_literals st xs) ys"
  by (induction st xs rule: scan_literals.induct) simp_all

lemma scan_literals_inside:
  "q \<notin> set xs \<Longrightarrow> scan_literals (InLiteral q) xs = InLiteral q"
  by (induction xs) auto

lemma scan_tag_prefix: "scan_literals Outside ''.//*[local-name()='' = Outside"
  by (simp add: apos_def dquote_def)

lemma scan_open: "scan_literals Outside [apos] = InLiteral apos"
  by simp

lemma scan_close: "scan_literals (InLiteral apos) [apos] = Outside"
  by simp

lemma scan_bracket: "scan_literals Outside '']'' = Outside"
  by (simp add: apos_def dquote_def)

lemma tag_expr_literals_closed:
  assumes "apos \<notin> set localname"
  shows "\<not> unfinished_literal (tag_expr localname)"
proof -
  have "scan_literals Outside (tag_expr localname)
          = scan_literals (scan_literals (scan_literals (scan_literals
              (scan_literals Outside ''.//*[local-name()='') [apos]) localname) [apos]) '']''"
    by (simp only: tag_expr_def scan_literals_append)
  also have "\<dots> = Outside"
    by (simp only: scan_tag_prefix scan_open scan_literals_inside [OF assms] scan_close
        scan_bracket)
  finally show ?thesis
    by (simp only: unfinished_literal_def simp_thms)
qed

lemma xml_compatible_append:
  "xml_compatible (xs @ ys) = (xml_compatible xs \<and> xml_compatible ys)"
  by (simp add: xml_compatible_def)

lemma tag_expr_compatible:
  "xml_compatible localname \<Longrightarrow> xml_compatible (tag_expr localname)"
  by (simp add: tag_expr_def xml_compatible_append)
     (simp add: xml_compatible_def apos_def)

lemma tokenize_literal:
  assumes "q = apos \<or> q = dquote" and "q \<notin> set s"
  shows "tokenize (q # s @ q # rest) = map_option ((#) (TOperand (Lit s))) (tokenize rest)"
proof -
  have "takeWhile (\<lambda>x. x \<noteq> q) (s @ q # rest) = s"
    using assms(2) by (auto simp: takeWhile_tail takeWhile_eq_all_conv)
  moreover have "dropWhile (\<lambda>x. x \<noteq> q) (s @ q # rest) = q # rest"
    using assms(2) by (auto simp: dropWhile_append3)
  moreover have "q \<noteq> CHR '' ''"
    using assms(1) by (auto simp: apos_def dquote_def)
  ultimately show ?thesis
    using assms(1) by (subst tokenize.simps) auto
qed

lemma tokenize_eq: "tokenize (CHR ''='' # rest) = map_option ((#) TEq) (tokenize rest)"
  by (subst tokenize.simps) (simp add: apos_def dquote_def)

lemma tokenize_local_name:
  "tokenize (''local-name()'' @ rest) = map_option ((#) (TOperand LocalName)) (tokenize rest)"
  by (simp, subst tokenize.simps) (simp add: apos_def dquote_def)

lemma tokenize_tag_pred:
  assumes "apos \<notin> set localname"
  shows "tokenize (''local-name()='' @ [apos] @ localname @ [apos])
           = Some [TOperand LocalName, TEq, TOperand (Lit localname)]"
proof -
  have "tokenize (apos # localname @ apos # []) = Some [TOperand (Lit localname)]"
    using assms tokenize_literal [of apos localname "[]"] by (simp add: tokenize.simps(1))
  then have "tokenize (CHR ''='' # apos # localname @ [apos]) = Some [TEq, TOperand (Lit localname)]"
    by (simp only: tokenize_eq) simp
  then have "tokenize (''local-name()'' @ CHR ''='' # apos # localname @ [apos])
      = Some [TOperand LocalName, TEq, TOperand (Lit localname)]"
    by (simp only: tokenize_local_name) simp
  then show ?thesis by simp
qed

lemma tag_inner:
  "drop 5 (tag_expr localname) = (''local-name()='' @ [apos] @ localname @ [apos]) @ '']''"
    by (simp add: tag_expr_def)

lemma parse_tag_expr:
  assumes "apos \<notin> set localname"
  shows "parse_descendant_query (tag_expr localname) = Some [(LocalName, Lit localname)]"
proof -
  have p: "prefix ''.//*['' (tag_expr localname)"
    by (simp add: tag_expr_def)
  have s: "suffix '']'' (drop 5 (tag_expr localname))"
    unfolding tag_inner by (rule suffixI) (rule refl)
  have b: "butlast (drop 5 (tag_expr localname)) = ''local-name()='' @ [apos] @ localname @ [apos]"
    unfolding tag_inner by (rule butlast_snoc)
  have "parse_descendant_query (tag_expr localname)
          = Option.bind (tokenize (butlast (drop 5 (tag_expr localname)))) parse_pred"
    using p s by (simp only: parse_descendant_query_def simp_thms if_True)
  also have "\<dots> = Option.bind (Some [TOperand LocalName, TEq, TOperand (Lit localname)]) parse_pred"
    by (simp only: b tokenize_tag_pred [OF assms])
  also have "\<dots> = Some [(LocalName, Lit localname)]"
    by simp
  finally show ?thesis .
qed

lemma eval_tag_pred: "eval_pred [(LocalName, Lit localname)] e = (el_local e = localname)"
  by (simp add: eval_pred_def)

lemma xpath_tag_expr:
  assumes "apos \<notin> set localname" and "xml_compatible localname"
  shows "xpath lib root (tag_expr localname)
           = Inr (XNodeSet (map (\<lambda>d. XElem (fst d))
                   (filter (\<lambda>d. el_local (snd d) = localname) (descendants root))))"
  using assms
  by (simp add: xpath_def tag_expr_compatible tag_expr_literals_closed parse_tag_expr eval_tag_pred)

subsection \<open>Assigning texts along paths\<close>

lemma set_texts_elements:
  assumes "xml_compatible v"
  shows "set_texts v (map XElem ps) (root, n)
           = ((foldl (\<lambda>r p. set_text_at p v r) root ps, n + length ps), None)"
  using assms by (induction ps arbitrary: root n) simp_all

lemma node_at_set_text_at:
  "node_at (set_text_at q v r) p
     = (if p = q then map_option (with_text v) (node_at r p) else node_at r p)"
proof (induction q v r arbitrary: p rule: set_text_at.induct)
  case (1 v n l a t cs ta)
  then show ?case
    by (cases p) (simp_all add: node_at_def with_text_def)
next
  case (2 i q v n l a t cs ta)
  show ?case
  proof (cases p)
    case Nil
    then show ?thesis by (simp add: node_at_def)
  next
    case (Cons j p')
    show ?thesis
    proof (cases "i < length cs")
      case False
      then show ?thesis
        using Cons by (auto simp: node_at_def)
    next
      case True
      have ih: "node_at (set_text_at q v (cs ! i)) p'
          = (if p' = q then map_option (with_text v) (node_at (cs ! i) p') else node_at (cs ! i) p')"
        using "2.IH" [OF True] .
      show ?thesis
      proof (cases "j = i")
        case True
        with \<open>i < length cs\<close> Cons ih show ?thesis
          by (simp add: node_at_def)
      next
        case False
        with \<open>i < length cs\<close> Cons show ?thesis
          by (simp add: node_at_def)
      qed
    qed
  qed
qed

lemma with_text_idem: "map_option (with_text v) (map_option (with_text v) x) = map_option (with_text v) x"
  by (cases x) (auto simp: with_text_def)

lemma node_at_foldl:
  "node_at (foldl (\<lambda>r p. set_text_at p v r) root ps) p
     = (if p \<in> set ps then map_option (with_text v) (node_at root p) else node_at root p)"
proof (induction ps arbitrary: root)
  case Nil
  then show ?case by simp
next
  case (Cons q ps)
  show ?case
    by (simp add: Cons.IH node_at_set_text_at with_text_idem)
qed

subsection \<open>The descendants are the elements at the non-empty paths\<close>

lemma descendants_iff:
  "((q, e) \<in> set (descendants r)) = (q \<noteq> [] \<and> get_el r q = Some e)"
  and descendants_from_iff:
  "((q, e) \<in> set (descendants_from i cs))
     = (\<exists>j p. q = (i + j) # p \<and> j < length cs \<and> get_el (cs ! j) p = Some e)"
proof (induction r and i cs arbitrary: q e and q e rule: descendants_descendants_from.induct)
  case (1 n l a t cs ta)
  show ?case
    by (cases q) (simp_all add: "1.IH")
next
  case (2 i)
  show ?case by simp
next
  case (3 i c cs)
  have "((q, e) \<in> set (descendants_from i (c # cs)))
      = ((q = [i] \<and> e = c) \<or> (\<exists>p. q = i # p \<and> p \<noteq> [] \<and> get_el c p = Some e)
         \<or> (\<exists>j p. q = (Suc i + j) # p \<and> j < length cs \<and> get_el (cs ! j) p = Some e))"
    by (auto simp: "3.IH")
  also have "\<dots> = (\<exists>j p. q = (i + j) # p \<and> j < length (c # cs) \<and> get_el ((c # cs) ! j) p = Some e)"
  proof
    assume "(q = [i] \<and> e = c) \<or> (\<exists>p. q = i # p \<and> p \<noteq> [] \<and> get_el c p = Some e)
         \<or> (\<exists>j p. q = (Suc i + j) # p \<and> j < length cs \<and> get_el (cs ! j) p = Some e)"
    then consider "q = [i] \<and> e = c" | p where "q = i # p" "get_el c p = Some e"
      | j p where "q = (Suc i + j) # p" "j < length cs" "get_el (cs ! j) p = Some e"
      by blast
    then show "\<exists>j p. q = (i + j) # p \<and> j < length (c # cs) \<and> get_el ((c # cs) ! j) p = Some e"
    proof cases
      case 1
      then show ?thesis by (intro exI [of _ 0] exI [of _ "[]"]) simp
    next
      case 2
      then show ?thesis by (intro exI [of _ 0] exI [of _ p]) simp
    next
      case 3
      then show ?thesis by (intro exI [of _ "Suc j"] exI [of _ p]) simp
    qed
  next
    assume "\<exists>j p. q = (i + j) # p \<and> j < length (c # cs) \<and> get_el ((c # cs) ! j) p = Some e"
    then obtain j p where jp: "q = (i + j) # p" "j < length (c # cs)" "get_el ((c # cs) ! j) p = Some e"
      by blast
    show "(q = [i] \<and> e = c) \<or> (\<exists>p. q = i # p \<and> p \<noteq> [] \<and> get_el c p = Some e)
         \<or> (\<exists>j p. q = (Suc i + j) # p \<and> j < length cs \<and> get_el (cs ! j) p = Some e)"
    proof (cases j)
      case 0
      with jp show ?thesis by (cases p) auto
    next
      case (Suc j')
      with jp show ?thesis by auto
    qed
  qed
  finally show ?case .
qed

lemma matching_paths:
  "(p \<in> fst ` set (filter (\<lambda>d. el_local (snd d) = name) (descendants root)))
     = (p \<noteq> [] \<and> (\<exists>e. get_el root p = Some e \<and> el_local e = name))"
  by (auto simp: descendants_iff image_iff)

text \<open>
  Claim C2, amended. For a parsed document with root element \<open>root\<close> and a tag rule
  whose pattern has no apostrophe, where lxml accepts the pattern and the new value as
  strings: the rule raises nothing, the count grows by the number of elements strictly
  below the root whose local name is the pattern, each of these elements has the new value
  as its text afterwards, and every other element (the root included) and everything else
  about the tree is as before.
\<close>

theorem tag_rule_replaces_below_root:
  assumes "mode rule = ''tag''"
    and "apos \<notin> set (pattern rule)"
    and "xml_compatible (pattern rule)"
    and "xml_compatible (new_value rule)"
  shows "\<exists>root'.
     apply_rule lib rule (Some root, applied, errs)
       = (Some root',
          applied + length (filter (\<lambda>d. el_local (snd d) = pattern rule) (descendants root)),
          errs)
     \<and> (\<forall>p. node_at root' p
            = (if p \<noteq> [] \<and> (\<exists>e. get_el root p = Some e \<and> el_local e = pattern rule)
               then map_option (with_text (new_value rule)) (node_at root p)
               else node_at root p))"
proof -
  let ?ds = "filter (\<lambda>d. el_local (snd d) = pattern rule) (descendants root)"
  let ?root' = "foldl (\<lambda>r p. set_text_at p (new_value rule) r) root (map fst ?ds)"
  have sel: "select_elements lib root rule = Inr (map XElem (map fst ?ds))"
    using assms(1-3)
    by (simp add: select_elements_def elements_by_tag_localname_expr xpath_tag_expr comp_def)
  have "set_texts (new_value rule) (map (XElem \<circ> fst) ?ds) (root, applied)
          = ((?root', applied + length ?ds), None)"
    using set_texts_elements [OF assms(4), of "map fst ?ds" root applied] by simp
  then have "try_rule lib rule (Some root, applied) = ((Some ?root', applied + length ?ds), None)"
    by (simp add: try_rule_def sel)
  then have "apply_rule lib rule (Some root, applied, errs) = (Some ?root', applied + length ?ds, errs)"
    by (simp add: apply_rule_def)
  moreover have "node_at ?root' p
            = (if p \<noteq> [] \<and> (\<exists>e. get_el root p = Some e \<and> el_local e = pattern rule)
               then map_option (with_text (new_value rule)) (node_at root p)
               else node_at root p)" for p
    using matching_paths [of p "pattern rule" root] by (simp add: node_at_foldl)
  ultimately show ?thesis by blast
qed

text \<open>
  Claim C2 as stated fails on the root element: in the document \<open><b>old</b>\<close> the tag
  rule for \<open>b\<close> selects nothing, since \<open>.//*\<close> ranges over the elements below the context
  node.
\<close>

theorem tag_rule_skips_root:
  "el_local root_b = pattern demo_rule \<and> mode demo_rule = ''tag''
   \<and> apply_rule root_b_lxml demo_rule (Some root_b, 0, []) = (Some root_b, 0, [])
   \<and> apply_rules root_b_lxml ''<b>old</b>'' [demo_rule]
       = (xml_declaration ''utf-8'' @ ''<b>old</b>'', 0, [])"
  by code_simp

lemma demo_rule_compatible:
  "xml_compatible (pattern demo_rule)" "xml_compatible (new_value demo_rule)"
  by (simp_all add: demo_rule_def xml_compatible_def)

theorem tag_rule_replaces_below_root_witness:
  "mode demo_rule = ''tag'' \<and> apos \<notin> set (pattern demo_rule)
   \<and> xml_compatible (pattern demo_rule) \<and> xml_compatible (new_value demo_rule)
   \<and> (\<exists>root'. apply_rule demo_lxml demo_rule (Some demo_tree, 0, []) = (Some root', 1, [])
         \<and> node_at root' [0] = Some (None, ''b'', [], Some ''NEW'', 0, None)
         \<and> node_at root' [] = Some (None, ''r'', [], None, 1, None))"
proof -
  have h1: "mode demo_rule = ''tag''"
    by (simp add: demo_rule_def)
  have h2: "apos \<notin> set (pattern demo_rule)"
    by (simp add: demo_rule_def apos_def)
  have n: "length (filter (\<lambda>d. el_local (snd d) = pattern demo_rule) (descendants demo_tree)) = 1"
    by (simp add: demo_rule_def demo_tree_def)
  have g: "get_el demo_tree [0] = Some (Element None ''b'' [] (Some ''old'') [] None)"
    by (simp add: demo_tree_def)
  obtain root' where r: "apply_rule demo_lxml demo_rule (Some demo_tree, 0, [])
       = (Some root',
          0 + length (filter (\<lambda>d. el_local (snd d) = pattern demo_rule) (descendants demo_tree)),
          [])"
    and t: "\<And>p. node_at root' p
            = (if p \<noteq> [] \<and> (\<exists>e. get_el demo_tree p = Some e \<and> el_local e = pattern demo_rule)
               then map_option (with_text (new_value demo_rule)) (node_at demo_tree p)
               else node_at demo_tree p)"
    using tag_rule_replaces_below_root [OF h1 h2 demo_rule_compatible, of demo_lxml demo_tree 0 "[]"]
    by blast
  have "node_at root' [0] = Some (None, ''b'', [], Some ''NEW'', 0, None)"
    using t [of "[0]"] g by (simp add: node_at_def with_text_def demo_rule_def)
  moreover have "node_at root' [] = Some (None, ''r'', [], None, 1, None)"
    using t [of "[]"] by (simp add: node_at_def demo_tree_def)
  ultimately show ?thesis
    using h1 h2 demo_rule_compatible r n by auto
qed

section \<open>Tag patterns with apostrophes\<close>

text \<open>
  Claim C10 as stated fails: the pattern \<open>x' or 'a'='a\<close> has apostrophes, yet the
  expression built from it, \<open>.//*[local-name()='x' or 'a'='a']\<close>, is well-formed and
  selects every element below the root; the rule modifies an element and no error is
  appended.
\<close>

theorem apostrophe_pattern_can_match:
  "apos \<in> set (pattern inject_rule) \<and> mode inject_rule = ''tag''
   \<and> elements_by_tag_localname demo_lxml demo_tree (pattern inject_rule) = Inr (XNodeSet [XElem [0]])
   \<and> apply_rules demo_lxml demo_doc [inject_rule]
       = (xml_declaration ''utf-8'' @ ''<r><b>NEW</b></r>'', 1, [])"
  by code_simp

lemma scan_literals_apos_parity:
  assumes "dquote \<notin> set s"
  shows "scan_literals Outside s
           = (if even (count_list s apos) then Outside else InLiteral apos)
       \<and> scan_literals (InLiteral apos) s
           = (if even (count_list s apos) then InLiteral apos else Outside)"
  using assms by (induction s) auto

lemma scan_bracket_inside: "scan_literals (InLiteral apos) '']'' = InLiteral apos"
  by (simp add: apos_def)

lemma tag_expr_unfinished:
  assumes "odd (count_list localname apos)" and "dquote \<notin> set localname"
  shows "unfinished_literal (tag_expr localname)"
proof -
  have "scan_literals Outside (tag_expr localname)
          = scan_literals (scan_literals (scan_literals (scan_literals
              (scan_literals Outside ''.//*[local-name()='') [apos]) localname) [apos]) '']''"
    by (simp only: tag_expr_def scan_literals_append)
  also have "\<dots> = scan_literals (scan_literals (scan_literals (InLiteral apos) localname) [apos]) '']''"
    by (simp only: scan_tag_prefix scan_open)
  also have "\<dots> = scan_literals (scan_literals Outside [apos]) '']''"
    using scan_literals_apos_parity [OF assms(2)] assms(1) by simp
  also have "\<dots> = InLiteral apos"
    by (simp only: scan_open scan_bracket_inside)
  finally show ?thesis
    by (simp add: unfinished_literal_def)
qed

text \<open>
  Claim C10, amended. For a tag rule whose pattern has an odd number of apostrophes and no
  double quote, the expression built from the pattern ends inside a string literal; the
  rule modifies no element, leaves the count as it is and appends exactly one rule error.
\<close>

theorem odd_apostrophes_raise:
  assumes "mode rule = ''tag''"
    and "odd (count_list (pattern rule) apos)"
    and "dquote \<notin> set (pattern rule)"
  shows "\<exists>e. apply_rule lib rule (root, applied, errs)
           = (root, applied,
              errs @ [''rule '' @ [apos] @ mode rule @ '':'' @ pattern rule @ [apos] @ '': ''
                        @ exn_msg e])"
proof (cases root)
  case None
  then show ?thesis
    by (intro exI [of _ none_has_no_xpath]) (simp add: apply_rule_def try_rule_def rule_error_def)
next
  case (Some r)
  have "\<exists>e. select_elements lib r rule = Inl e"
    using assms(1) tag_expr_unfinished [OF assms(2,3)]
    by (simp add: select_elements_def elements_by_tag_localname_expr xpath_def)
  then obtain e where "select_elements lib r rule = Inl e" ..
  with Some show ?thesis
    by (intro exI [of _ e]) (simp add: apply_rule_def try_rule_def rule_error_def)
qed

theorem odd_apostrophes_raise_witness:
  "mode quote_rule = ''tag'' \<and> odd (count_list (pattern quote_rule) apos)
   \<and> dquote \<notin> set (pattern quote_rule)
   \<and> (\<exists>e. apply_rule demo_lxml quote_rule (Some demo_tree, 0, [])
           = (Some demo_tree, 0, [''rule '' @ [apos] @ ''tag:x'' @ [apos, apos] @ '': '' @ exn_msg e]))"
proof -
  have h1: "mode quote_rule = ''tag''"
    by (simp add: quote_rule_def)
  have h2: "odd (count_list (pattern quote_rule) apos)"
    by (simp add: quote_rule_def apos_def)
  have h3: "dquote \<notin> set (pattern quote_rule)"
    by (simp add: quote_rule_def apos_def dquote_def)
  show ?thesis
    using odd_apostrophes_raise [OF h1 h2 h3, of demo_lxml "Some demo_tree" 0 "[]"] h1 h2 h3
    by (simp add: quote_rule_def)
qed

section \<open>The declared encoding\<close>




lemma str_find_least:
  "str_find s sub = Some i \<Longrightarrow>
     i \<le> length s \<and> prefix sub (drop i s) \<and> (\<forall>j<i. \<not> prefix sub (drop j s))"
proof (induction s arbitrary: i)
  case Nil
  then show ?case by (simp split: if_splits)
next
  case (Cons c s)
  show ?case
  proof (cases "prefix sub (c # s)")
    case True
    with Cons.prems show ?thesis by simp
  next
    case False
    with Cons.prems obtain i' where i': "str_find s sub = Some i'" "i = Suc i'"
      by auto
    from Cons.IH [OF i'(1)] have ih: "i' \<le> length s" "prefix sub (drop i' s)"
      "\<forall>j<i'. \<not> prefix sub (drop j s)"
      by simp_all
    have "\<not> prefix sub (drop j (c # s))" if "j < i" for j
      using that False ih(3) i'(2) by (cases j) simp_all
    with ih i'(2) show ?thesis by simp
  qed
qed










end
